theory Spec2Isabelle
  imports Main
begin

section \<open>The WebSocket fanout layer of \<open>registerRoutes\<close>\<close>

text \<open>
  The real-time layer lives at the end of \<open>registerRoutes\<close>: one process-wide
  \<open>clients\<close> map from socket to \<open>{userId, channels}\<close>, a \<open>'message'\<close> handler that
  parses a frame and switches on its \<open>type\<close>, and a \<open>'close'\<close> handler that deletes the
  socket's entry. Node runs each handler to completion before the next one starts, so a
  handler is modelled as a function from the map before to the map after, together with
  the frames it handed to \<open>send\<close> and the errors it wrote to \<open>console.error\<close>. What
  the handler takes from outside, the \<open>readyState\<close> of each socket and whether
  \<open>JSON.stringify\<close> runs out of stack, is an argument.
\<close>

subsection \<open>JavaScript values\<close>

text \<open>
  A frame is whatever \<open>JSON.parse\<close> makes of the text, so the handler works on untyped
  values. \<open>'n\<close> is the type of finite number values as \<open>SameValueZero\<close> tells them
  apart; a literal beyond the range of a double, such as \<open>1e400\<close>, is parsed to
  \<open>Infinity\<close> or \<open>-Infinity\<close>, and \<open>NaN\<close> is never parsed. Strings are byte strings.
  \<open>Undefined\<close> is never produced by \<open>JSON.parse\<close>; it is what reading an absent property
  gives.
\<close>

datatype 'n jsval =
    Undefined
  | JNull
  | JBool bool
  | JNum 'n
  | JInfinity
  | JNegInfinity
  | JStr string
  | JArr "'n jsval list"
  | JObj "(string \<times> 'n jsval) list"

datatype js_error = SyntaxError | TypeError | RangeError

text \<open>The result of \<open>JSON.parse(data.toString())\<close>: it throws or returns a value.\<close>

datatype 'n parse_result = Throws | Returns "'n jsval"

text \<open>
  \<open>message.k\<close>. Reading a property of \<open>null\<close> or \<open>undefined\<close> throws a TypeError; an
  object gives its own property or \<open>undefined\<close>; every other value has none of the five
  names the handler reads (\<open>type\<close>, \<open>userId\<close>, \<open>channelId\<close>, \<open>data\<close>, \<open>isTyping\<close>), neither
  its own nor inherited.
\<close>

fun get :: "'n jsval \<Rightarrow> string \<Rightarrow> js_error + 'n jsval" where
  "get Undefined k = Inl TypeError"
| "get JNull k = Inl TypeError"
| "get (JObj kvs) k = (case map_of kvs k of None \<Rightarrow> Inr Undefined | Some v \<Rightarrow> Inr v)"
| "get v k = Inr Undefined"

text \<open>
  The same read once \<open>message.type\<close> has succeeded: the value is then neither \<open>null\<close>
  nor \<open>undefined\<close> and the read cannot throw.
\<close>

definition prop_of :: "'n jsval \<Rightarrow> string \<Rightarrow> 'n jsval" where
  "prop_of v k = (case get v k of Inl e \<Rightarrow> Undefined | Inr x \<Rightarrow> x)"

text \<open>
  The value that the text written by \<open>JSON.stringify\<close> denotes. A number that is not
  finite is written as \<open>null\<close>; so is \<open>undefined\<close> inside an array, and a property whose
  value is \<open>undefined\<close> is left out. Everything else is written as it is.
\<close>

primrec written :: "'n jsval \<Rightarrow> 'n jsval" where
  "written Undefined = Undefined"
| "written JNull = JNull"
| "written (JBool b) = JBool b"
| "written (JNum n) = JNum n"
| "written JInfinity = JNull"
| "written JNegInfinity = JNull"
| "written (JStr s) = JStr s"
| "written (JArr xs) = JArr (map (\<lambda>w. if w = Undefined then JNull else w) (map written xs))"
| "written (JObj kvs) =
     JObj (filter (\<lambda>kv. snd kv \<noteq> Undefined) (map (map_prod id written) kvs))"

text \<open>
  What the handler takes from its surroundings while it runs: the \<open>readyState\<close> of every
  socket, and the values on which \<open>JSON.stringify\<close> throws. The serialiser calls itself
  once for each level of nesting and throws a RangeError when the stack is exhausted;
  how deep that is depends on the engine, so it is not fixed here.
\<close>

datatype ready_state = CONNECTING | OPEN | CLOSING | CLOSED

record ('c, 'n) env =
  readyState :: "'c \<Rightarrow> ready_state"
  stringify_throws :: "'n jsval \<Rightarrow> bool"

text \<open>\<open>JSON.stringify({...})\<close> on an object literal with the given properties.\<close>

definition JSON_stringify :: "('c, 'n) env \<Rightarrow> (string \<times> 'n jsval) list \<Rightarrow> js_error + 'n jsval" where
  "JSON_stringify env props =
     (if stringify_throws env (JObj props) then Inl RangeError
      else Inr (written (JObj props)))"

subsection \<open>The \<open>channels\<close> set\<close>

text \<open>
  A JavaScript \<open>Set\<close> keeps its elements in insertion order and compares them with
  \<open>SameValueZero\<close>: primitives by value, objects and arrays by identity. Every frame is
  parsed afresh, so an array or object taken from one frame is never identical to one
  taken from another: such a value equals nothing already stored.
\<close>

fun primitive :: "'n jsval \<Rightarrow> bool" where
  "primitive (JArr xs) = False"
| "primitive (JObj kvs) = False"
| "primitive v = True"

definition same_value_zero :: "'n jsval \<Rightarrow> 'n jsval \<Rightarrow> bool" where
  "same_value_zero stored x = (primitive x \<and> stored = x)"

definition Set_has :: "'n jsval list \<Rightarrow> 'n jsval \<Rightarrow> bool" where
  "Set_has s x = list_ex (\<lambda>y. same_value_zero y x) s"

definition Set_add :: "'n jsval list \<Rightarrow> 'n jsval \<Rightarrow> 'n jsval list" where
  "Set_add s x = (if Set_has s x then s else s @ [x])"

definition Set_delete :: "'n jsval list \<Rightarrow> 'n jsval \<Rightarrow> 'n jsval list" where
  "Set_delete s x = filter (\<lambda>y. \<not> same_value_zero y x) s"

subsection \<open>The \<open>clients\<close> map\<close>

record 'n client_info =
  userId :: "'n jsval"
  channels :: "'n jsval list"

text \<open>
  A JavaScript \<open>Map\<close> iterates in insertion order, so it is an association list.
  \<open>set\<close> on a key that is present replaces the value where it stands, on a new key it
  appends; \<open>get\<close> is \<open>map_of\<close>; \<open>delete\<close> removes the entry.
\<close>

type_synonym ('c, 'n) clients_map = "('c \<times> 'n client_info) list"

primrec Map_set :: "'c \<Rightarrow> 'v \<Rightarrow> ('c \<times> 'v) list \<Rightarrow> ('c \<times> 'v) list" where
  "Map_set k v [] = [(k, v)]"
| "Map_set k v (e # es) = (if fst e = k then (k, v) # es else e # Map_set k v es)"

definition Map_get :: "('c \<times> 'v) list \<Rightarrow> 'c \<Rightarrow> 'v option" where
  "Map_get m k = map_of m k"

definition Map_delete :: "'c \<Rightarrow> ('c \<times> 'v) list \<Rightarrow> ('c \<times> 'v) list" where
  "Map_delete k m = filter (\<lambda>e. fst e \<noteq> k) m"

subsection \<open>The handlers\<close>

record ('c, 'n) outcome =
  clients :: "('c, 'n) clients_map"
  sent :: "('c \<times> 'n jsval) list"
  console_error :: "js_error list"

text \<open>
  The loop
  \<open>clients.forEach((clientInfo, clientWs) => { if (...) clientWs.send(JSON.stringify({...})) })\<close>
  of the \<open>new_message\<close> and \<open>typing\<close> cases, which differ only in the object literal.
  \<open>JSON.stringify\<close> is called inside the loop, once for each socket that passes the test,
  before \<open>send\<close>: when it throws, the loop is left with what was sent so far. \<open>send\<close>
  does not touch the map, so the loop walks the entries as they stand. The result is the
  frames handed to \<open>send\<close> and the exception that ended the loop, if any.
\<close>

fun forEach_send ::
  "'c \<Rightarrow> 'n jsval \<Rightarrow> ('c, 'n) env \<Rightarrow> (string \<times> 'n jsval) list \<Rightarrow> ('c, 'n) clients_map \<Rightarrow>
     ('c \<times> 'n jsval) list \<times> js_error option"
where
  "forEach_send ws channelId env props [] = ([], None)"
| "forEach_send ws channelId env props ((clientWs, clientInfo) # rest) =
     (if clientWs \<noteq> ws \<and> Set_has (channels clientInfo) channelId \<and>
         readyState env clientWs = OPEN
      then (case JSON_stringify env props of
              Inl e \<Rightarrow> ([], Some e)
            | Inr frame \<Rightarrow>
               (case forEach_send ws channelId env props rest of
                  (out, thrown) \<Rightarrow> ((clientWs, frame) # out, thrown)))
      else forEach_send ws channelId env props rest)"

text \<open>The \<open>catch\<close> clause after the loop: \<open>console.error\<close> of what was thrown.\<close>

definition caught :: "('c, 'n) clients_map \<Rightarrow> ('c \<times> 'n jsval) list \<times> js_error option \<Rightarrow> ('c, 'n) outcome" where
  "caught cl r =
     (case r of (out, thrown) \<Rightarrow>
        \<lparr>clients = cl, sent = out,
         console_error = (case thrown of None \<Rightarrow> [] | Some e \<Rightarrow> [e])\<rparr>)"

text \<open>
  \<open>ws.on('message', ...)\<close>. The \<open>try\<close> block can throw in three places:
  \<open>JSON.parse\<close>; \<open>message.type\<close> when the frame is \<open>null\<close>; and \<open>JSON.stringify\<close> inside
  the loop of the two broadcasting cases. The \<open>catch\<close> clause logs and returns. A
  \<open>switch\<close> compares with \<open>===\<close> and has no \<open>default\<close>. In \<open>join_channel\<close> and
  \<open>leave_channel\<close> the set inside the stored entry is changed in place: the entry keeps
  its position.
\<close>

definition on_message ::
  "'c \<Rightarrow> 'n parse_result \<Rightarrow> ('c, 'n) env \<Rightarrow> ('c, 'n) clients_map \<Rightarrow> ('c, 'n) outcome"
where
  "on_message ws parsed env cl =
    (case parsed of
       Throws \<Rightarrow> \<lparr>clients = cl, sent = [], console_error = [SyntaxError]\<rparr>
     | Returns message \<Rightarrow>
        (case get message ''type'' of
           Inl e \<Rightarrow> \<lparr>clients = cl, sent = [], console_error = [e]\<rparr>
         | Inr t \<Rightarrow>
            if t = JStr ''auth'' then
              \<lparr>clients = Map_set ws \<lparr>userId = prop_of message ''userId'', channels = []\<rparr> cl,
               sent = [], console_error = []\<rparr>
            else if t = JStr ''join_channel'' then
              (case Map_get cl ws of
                 None \<Rightarrow> \<lparr>clients = cl, sent = [], console_error = []\<rparr>
               | Some clientData \<Rightarrow>
                  \<lparr>clients = Map_set ws
                     (clientData\<lparr>channels := Set_add (channels clientData) (prop_of message ''channelId'')\<rparr>) cl,
                   sent = [], console_error = []\<rparr>)
            else if t = JStr ''leave_channel'' then
              (case Map_get cl ws of
                 None \<Rightarrow> \<lparr>clients = cl, sent = [], console_error = []\<rparr>
               | Some client \<Rightarrow>
                  \<lparr>clients = Map_set ws
                     (client\<lparr>channels := Set_delete (channels client) (prop_of message ''channelId'')\<rparr>) cl,
                   sent = [], console_error = []\<rparr>)
            else if t = JStr ''new_message'' then
              caught cl
                (forEach_send ws (prop_of message ''channelId'') env
                   [(''type'', JStr ''new_message''), (''message'', prop_of message ''data'')] cl)
            else if t = JStr ''typing'' then
              caught cl
                (forEach_send ws (prop_of message ''channelId'') env
                   [(''type'', JStr ''typing''),
                    (''userId'', prop_of message ''userId''),
                    (''channelId'', prop_of message ''channelId''),
                    (''isTyping'', prop_of message ''isTyping'')] cl)
            else \<lparr>clients = cl, sent = [], console_error = []\<rparr>))"

text \<open>\<open>ws.on('close', ...)\<close>: \<open>clients.delete(ws)\<close>.\<close>

definition on_close :: "'c \<Rightarrow> ('c, 'n) clients_map \<Rightarrow> ('c, 'n) clients_map" where
  "on_close ws cl = Map_delete ws cl"

subsection \<open>Runs of the event loop\<close>

text \<open>
  An event is a frame arriving on a socket or a socket closing; with each comes what the
  handler takes from its surroundings at that moment. The map starts empty
  (\<open>new Map()\<close>) and the handlers run one after another.
\<close>

datatype ('c, 'n) event = Message 'c "'n parse_result" | Close 'c

fun step :: "('c, 'n) env \<times> ('c, 'n) event \<Rightarrow> ('c, 'n) clients_map \<Rightarrow> ('c, 'n) outcome" where
  "step (env, Message ws parsed) cl = on_message ws parsed env cl"
| "step (env, Close ws) cl = \<lparr>clients = on_close ws cl, sent = [], console_error = []\<rparr>"

fun run :: "('c, 'n) clients_map \<Rightarrow> (('c, 'n) env \<times> ('c, 'n) event) list \<Rightarrow> ('c, 'n) outcome" where
  "run cl [] = \<lparr>clients = cl, sent = [], console_error = []\<rparr>"
| "run cl (e # es) =
     (let first = step e cl; others = run (clients first) es
      in \<lparr>clients = clients others,
          sent = sent first @ sent others,
          console_error = console_error first @ console_error others\<rparr>)"

subsection \<open>What the claims speak of\<close>

text \<open>
  \<open>subscribersOf\<close> is not a function of the source: it is the test
  \<open>clientInfo.channels.has(channelId)\<close> of the loop, read as the list of sockets that
  pass it. \<open>subscribed\<close> is the same test through \<open>clients.get\<close>. \<open>received\<close> are the
  frames of a handler's output addressed to one socket.
\<close>

definition subscribersOf :: "('c, 'n) clients_map \<Rightarrow> 'n jsval \<Rightarrow> 'c list" where
  "subscribersOf cl channelId =
     map fst (filter (\<lambda>(clientWs, clientInfo). Set_has (channels clientInfo) channelId) cl)"

definition subscribed :: "('c, 'n) clients_map \<Rightarrow> 'c \<Rightarrow> 'n jsval \<Rightarrow> bool" where
  "subscribed cl c channelId =
     (case Map_get cl c of None \<Rightarrow> False | Some info \<Rightarrow> Set_has (channels info) channelId)"

definition received :: "'c \<Rightarrow> ('c \<times> 'n jsval) list \<Rightarrow> 'n jsval list" where
  "received c out = map snd (filter (\<lambda>(to, frame). to = c) out)"

definition wellformed :: "('c, 'n) clients_map \<Rightarrow> bool" where
  "wellformed cl = distinct (map fst cl)"

text \<open>
  The \<open>case\<close> labels of the \<open>switch\<close>. A frame is recognised when \<open>JSON.parse\<close> returns,
  \<open>message.type\<close> can be read, and the value is one of the labels; every other frame
  falls out of the \<open>try\<close> block through the \<open>catch\<close> clause or past the last \<open>case\<close>.
\<close>

definition known_types :: "string list" where
  "known_types = [''auth'', ''join_channel'', ''leave_channel'', ''new_message'', ''typing'']"

definition recognised :: "'n parse_result \<Rightarrow> bool" where
  "recognised parsed =
     (case parsed of
        Throws \<Rightarrow> False
      | Returns message \<Rightarrow>
         (case get message ''type'' of
            Inl e \<Rightarrow> False
          | Inr t \<Rightarrow> t \<in> set (map JStr known_types)))"

text \<open>
  The socket an event's frame comes from, and the runs in which a socket delivers no
  frame: a socket that has closed emits no further \<open>'message'\<close> event.
\<close>

fun sender :: "('c, 'n) event \<Rightarrow> 'c option" where
  "sender (Message ws parsed) = Some ws"
| "sender (Close ws) = None"

definition silent :: "'c \<Rightarrow> (('c, 'n) env \<times> ('c, 'n) event) list \<Rightarrow> bool" where
  "silent c es = list_all (\<lambda>(env, e). sender e \<noteq> Some c) es"

text \<open>
  The object literal the two broadcasting cases give to \<open>JSON.stringify\<close>, by the \<open>type\<close>
  of the request, and the sockets that pass the test of the loop, in the order of the map.
\<close>

definition broadcast_fields :: "string \<Rightarrow> 'n jsval \<Rightarrow> (string \<times> 'n jsval) list" where
  "broadcast_fields t message =
     (if t = ''new_message''
      then [(''type'', JStr ''new_message''), (''message'', prop_of message ''data'')]
      else [(''type'', JStr ''typing''),
            (''userId'', prop_of message ''userId''),
            (''channelId'', prop_of message ''channelId''),
            (''isTyping'', prop_of message ''isTyping'')])"

definition recipients :: "'c \<Rightarrow> 'n jsval \<Rightarrow> ('c, 'n) env \<Rightarrow> ('c, 'n) clients_map \<Rightarrow> 'c list" where
  "recipients ws channelId env cl =
     map fst (filter (\<lambda>(clientWs, clientInfo).
        clientWs \<noteq> ws \<and> Set_has (channels clientInfo) channelId \<and>
        readyState env clientWs = OPEN) cl)"

text \<open>
  The values that \<open>JSON.stringify\<close> writes as they are: those with no number that is not
  finite and no \<open>undefined\<close> in them. The depth of nesting of a value.
\<close>

primrec plain :: "'n jsval \<Rightarrow> bool" where
  "plain Undefined = False"
| "plain JNull = True"
| "plain (JBool b) = True"
| "plain (JNum n) = True"
| "plain JInfinity = False"
| "plain JNegInfinity = False"
| "plain (JStr s) = True"
| "plain (JArr xs) = list_all id (map plain xs)"
| "plain (JObj kvs) = list_all snd (map (map_prod id plain) kvs)"

primrec depth :: "'n jsval \<Rightarrow> nat" where
  "depth Undefined = 0"
| "depth JNull = 0"
| "depth (JBool b) = 0"
| "depth (JNum n) = 0"
| "depth JInfinity = 0"
| "depth JNegInfinity = 0"
| "depth (JStr s) = 0"
| "depth (JArr xs) = Suc (foldr max (map depth xs) 0)"
| "depth (JObj kvs) = Suc (foldr max (map snd (map (map_prod id depth) kvs)) 0)"

subsection \<open>Concrete frames and maps\<close>

text \<open>
  Frames as a client writes them, with sockets numbered and integer ids, and the maps of
  the scenarios: three sockets that sent \<open>auth\<close> with users 1, 2, 3 and joined channel
  10; socket 1 in channel 10 and socket 2 in none. In \<open>all_open\<close> every socket is OPEN
  and \<open>JSON.stringify\<close> never throws; in \<open>shallow_stack\<close> every socket is OPEN and
  \<open>JSON.stringify\<close> throws on a value nested more than three deep (an engine does so
  some thousands of levels down). \<open>deep\<close> is a payload nested four deep.
\<close>

definition frame_auth :: "int \<Rightarrow> int jsval" where
  "frame_auth u = JObj [(''type'', JStr ''auth''), (''userId'', JNum u)]"

definition frame_join :: "int \<Rightarrow> int jsval" where
  "frame_join x = JObj [(''type'', JStr ''join_channel''), (''channelId'', JNum x)]"

definition frame_leave :: "int \<Rightarrow> int jsval" where
  "frame_leave x = JObj [(''type'', JStr ''leave_channel''), (''channelId'', JNum x)]"

definition frame_new_message :: "int \<Rightarrow> int jsval \<Rightarrow> int jsval" where
  "frame_new_message x d =
     JObj [(''type'', JStr ''new_message''), (''channelId'', JNum x), (''data'', d)]"

definition frame_typing :: "int \<Rightarrow> int \<Rightarrow> bool \<Rightarrow> int jsval" where
  "frame_typing x u b =
     JObj [(''type'', JStr ''typing''), (''channelId'', JNum x), (''userId'', JNum u),
           (''isTyping'', JBool b)]"

definition hi :: "int jsval" where
  "hi = JObj [(''content'', JStr ''hi'')]"

definition deep :: "int jsval" where
  "deep = JArr [JArr [JArr [JArr []]]]"

definition all_open :: "(nat, int) env" where
  "all_open = \<lparr>readyState = (\<lambda>c. OPEN), stringify_throws = (\<lambda>v. False)\<rparr>"

definition shallow_stack :: "(nat, int) env" where
  "shallow_stack = \<lparr>readyState = (\<lambda>c. OPEN), stringify_throws = (\<lambda>v. 3 < depth v)\<rparr>"

definition three_in_10 :: "(nat, int) clients_map" where
  "three_in_10 =
     [(1, \<lparr>userId = JNum 1, channels = [JNum 10]\<rparr>),
      (2, \<lparr>userId = JNum 2, channels = [JNum 10]\<rparr>),
      (3, \<lparr>userId = JNum 3, channels = [JNum 10]\<rparr>)]"

definition only_1_in_10 :: "(nat, int) clients_map" where
  "only_1_in_10 =
     [(1, \<lparr>userId = JNum 1, channels = [JNum 10]\<rparr>),
      (2, \<lparr>userId = JNum 2, channels = []\<rparr>)]"

lemmas ex_defs = frame_auth_def frame_join_def frame_leave_def frame_new_message_def
  frame_typing_def hi_def deep_def all_open_def shallow_stack_def three_in_10_def only_1_in_10_def

lemmas eval_defs = wellformed_def prop_of_def subscribersOf_def subscribed_def Set_has_def
  Set_add_def Set_delete_def same_value_zero_def Map_get_def Map_delete_def on_message_def
  on_close_def JSON_stringify_def received_def known_types_def recognised_def silent_def
  caught_def recipients_def broadcast_fields_def

section \<open>Properties of the containers\<close>

lemma Map_get_Map_set:
  "Map_get (Map_set k v m) k' = (if k' = k then Some v else Map_get m k')"
  by (induction m) (auto simp: Map_get_def)

lemma keys_Map_set:
  "map fst (Map_set k v m) = (if k \<in> fst ` set m then map fst m else map fst m @ [k])"
  by (induction m) auto

lemma wellformed_Map_set: "wellformed m \<Longrightarrow> wellformed (Map_set k v m)"
  by (simp add: wellformed_def keys_Map_set)

lemma Map_get_Map_delete:
  "Map_get (Map_delete k m) k' = (if k' = k then None else Map_get m k')"
  by (induction m) (auto simp: Map_get_def Map_delete_def)

lemma wellformed_Map_delete: "wellformed m \<Longrightarrow> wellformed (Map_delete k m)"
  by (simp add: wellformed_def Map_delete_def distinct_map_filter)

lemma Map_get_None_iff: "Map_get m k = None \<longleftrightarrow> k \<notin> fst ` set m"
  by (simp add: Map_get_def map_of_eq_None_iff)

lemma received_Nil [simp]: "received c [] = []"
  by (simp add: received_def)

lemma received_Cons:
  "received c ((d, f) # out) = (if d = c then f # received c out else received c out)"
  by (simp add: received_def)

lemma received_append: "received c (xs @ ys) = received c xs @ received c ys"
  by (simp add: received_def)

lemma received_same_frame:
  "distinct cs \<Longrightarrow> received c (map (\<lambda>d. (d, f)) cs) = (if c \<in> set cs then [f] else [])"
  by (induction cs) (auto simp: received_Cons)

lemma received_absent: "c \<notin> set cs \<Longrightarrow> received c (map (\<lambda>d. (d, f)) cs) = []"
  by (induction cs) (auto simp: received_Cons)

lemma Set_has_Set_delete: "\<not> Set_has (Set_delete s x) x"
  by (simp add: Set_has_def Set_delete_def list_ex_iff)

lemma Set_has_Set_add: "primitive x \<Longrightarrow> Set_has (Set_add s x) x"
  by (auto simp: Set_has_def Set_add_def list_ex_iff same_value_zero_def)

section \<open>What \<open>JSON.stringify\<close> writes\<close>

lemma written_Undefined_iff: "written v = Undefined \<longleftrightarrow> v = Undefined"
  by (cases v) simp_all

lemma written_plain: "plain v \<Longrightarrow> written v = v"
proof (induction v)
  case (JArr xs)
  then have same: "\<forall>x\<in>set xs. written x = x" and defined: "\<forall>x\<in>set xs. x \<noteq> Undefined"
    by (auto simp: list_all_iff)
  from same have "map written xs = xs"
    by (simp add: map_idI)
  with defined show ?case
    by (simp add: map_idI)
next
  case (JObj kvs)
  then have same: "\<forall>kv\<in>set kvs. map_prod id written kv = kv"
    and defined: "\<forall>kv\<in>set kvs. snd kv \<noteq> Undefined"
    by (auto simp: list_all_iff)
  from same have "map (map_prod id written) kvs = kvs"
    by (simp add: map_idI)
  with defined show ?case
    by simp
qed simp_all

section \<open>The fanout loop\<close>

text \<open>
  The loop as a whole: when \<open>JSON.stringify\<close> returns a frame, every socket that passes
  the test is handed that frame, in the order of the map; when it throws, nothing is
  sent, and the exception is there to be caught if some socket passed the test.
\<close>

lemma forEach_send_throws:
  "JSON_stringify env props = Inl e \<Longrightarrow>
   forEach_send ws X env props cl = ([], if recipients ws X env cl = [] then None else Some e)"
proof (induction cl)
  case Nil
  show ?case by (simp add: recipients_def)
next
  case (Cons a cl)
  obtain k info where a: "a = (k, info)" by (cases a)
  from Cons show ?case
    by (simp add: a recipients_def)
qed

lemma forEach_send_returns:
  "JSON_stringify env props = Inr frame \<Longrightarrow>
   forEach_send ws X env props cl = (map (\<lambda>c. (c, frame)) (recipients ws X env cl), None)"
proof (induction cl)
  case Nil
  show ?case by (simp add: recipients_def)
next
  case (Cons a cl)
  obtain k info where a: "a = (k, info)" by (cases a)
  from Cons show ?case
    by (simp add: a recipients_def)
qed

lemma forEach_send_eq:
  "forEach_send ws X env props cl =
     (case JSON_stringify env props of
        Inl e \<Rightarrow> ([], if recipients ws X env cl = [] then None else Some e)
      | Inr frame \<Rightarrow> (map (\<lambda>c. (c, frame)) (recipients ws X env cl), None))"
  by (cases "JSON_stringify env props") (simp_all add: forEach_send_throws forEach_send_returns)

lemma set_subscribersOf:
  "c \<in> set (subscribersOf cl X) \<longleftrightarrow> (\<exists>info. (c, info) \<in> set cl \<and> Set_has (channels info) X)"
  by (auto simp: subscribersOf_def image_iff)

lemma set_recipients:
  "c \<in> set (recipients ws X env cl) \<longleftrightarrow>
     c \<in> set (subscribersOf cl X) \<and> c \<noteq> ws \<and> readyState env c = OPEN"
  by (auto simp: recipients_def subscribersOf_def image_iff)

lemma recipients_Nil_iff:
  "recipients ws X env cl = [] \<longleftrightarrow>
     \<not> (\<exists>c. c \<in> set (subscribersOf cl X) \<and> c \<noteq> ws \<and> readyState env c = OPEN)"
proof -
  have "recipients ws X env cl = [] \<longleftrightarrow> (\<forall>c. c \<notin> set (recipients ws X env cl))"
    by (cases "recipients ws X env cl") auto
  then show ?thesis
    by (simp only: set_recipients) blast
qed

lemma distinct_recipients: "wellformed cl \<Longrightarrow> distinct (recipients ws X env cl)"
  by (simp add: wellformed_def recipients_def distinct_map_filter)

lemma subscribersOf_subscribed:
  assumes "wellformed cl"
  shows "c \<in> set (subscribersOf cl X) \<longleftrightarrow> subscribed cl c X"
proof -
  from assms have "\<And>info. (c, info) \<in> set cl \<longleftrightarrow> map_of cl c = Some info"
    by (simp add: wellformed_def)
  then show ?thesis
    by (simp add: set_subscribersOf subscribed_def Map_get_def split: option.splits)
qed

text \<open>
  With every socket at most once in the map, the loop hands a socket the frame once if it
  passes the three tests and \<open>JSON.stringify\<close> returns, and not at all otherwise.
\<close>

lemma received_forEach_send:
  assumes "wellformed cl"
  shows "received c (fst (forEach_send ws X env props cl)) =
     (if c \<in> set (subscribersOf cl X) \<and> c \<noteq> ws \<and> readyState env c = OPEN \<and>
         \<not> stringify_throws env (JObj props)
      then [written (JObj props)] else [])"
  using distinct_recipients [OF assms, of ws X env]
  by (simp add: forEach_send_eq JSON_stringify_def received_same_frame set_recipients)

lemma thrown_forEach_send:
  "snd (forEach_send ws X env props cl) =
     (if stringify_throws env (JObj props) \<and>
         (\<exists>c. c \<in> set (subscribersOf cl X) \<and> c \<noteq> ws \<and> readyState env c = OPEN)
      then Some RangeError else None)"
  by (simp add: forEach_send_eq JSON_stringify_def recipients_Nil_iff)

lemma caught_simps:
  "clients (caught cl r) = cl"
  "sent (caught cl r) = fst r"
  "console_error (caught cl r) = (case snd r of None \<Rightarrow> [] | Some e \<Rightarrow> [e])"
  by (simp_all add: caught_def split: prod.splits)

section \<open>Every socket at most once in the map\<close>

text \<open>
  The map starts empty and no handler enters a socket twice, so in every run each socket
  has at most one entry.
\<close>

lemma wellformed_on_message:
  "wellformed cl \<Longrightarrow> wellformed (clients (on_message ws parsed env cl))"
  by (auto simp: on_message_def wellformed_Map_set caught_simps
           split: parse_result.splits sum.splits option.splits)

lemma wellformed_step:
  assumes "wellformed cl"
  shows "wellformed (clients (step e cl))"
proof -
  obtain env ev where e: "e = (env, ev)" by (cases e)
  from assms show ?thesis
    by (cases ev) (simp_all add: e wellformed_on_message on_close_def wellformed_Map_delete)
qed

lemma wellformed_run: "wellformed cl \<Longrightarrow> wellformed (clients (run cl es))"
  by (induction es arbitrary: cl) (simp_all add: Let_def wellformed_step)

lemma wellformed_empty: "wellformed []"
  by (simp add: wellformed_def)

lemma wellformed_reachable: "wellformed (clients (run [] es))"
  by (simp add: wellformed_run wellformed_empty)

section \<open>The handlers, case by case\<close>

lemma on_message_auth:
  "get message ''type'' = Inr (JStr ''auth'') \<Longrightarrow>
   on_message ws (Returns message) env cl =
     \<lparr>clients = Map_set ws \<lparr>userId = prop_of message ''userId'', channels = []\<rparr> cl,
      sent = [], console_error = []\<rparr>"
  by (simp add: on_message_def)

lemma on_message_join_channel:
  "get message ''type'' = Inr (JStr ''join_channel'') \<Longrightarrow> Map_get cl ws = Some clientData \<Longrightarrow>
   on_message ws (Returns message) env cl =
     \<lparr>clients = Map_set ws
        (clientData\<lparr>channels := Set_add (channels clientData) (prop_of message ''channelId'')\<rparr>) cl,
      sent = [], console_error = []\<rparr>"
  by (simp add: on_message_def)

lemma on_message_new_message:
  "get message ''type'' = Inr (JStr ''new_message'') \<Longrightarrow>
   on_message S (Returns message) env cl =
     caught cl (forEach_send S (prop_of message ''channelId'') env
       [(''type'', JStr ''new_message''), (''message'', prop_of message ''data'')] cl)"
  by (simp add: on_message_def)

lemma on_message_typing:
  "get message ''type'' = Inr (JStr ''typing'') \<Longrightarrow>
   on_message S (Returns message) env cl =
     caught cl (forEach_send S (prop_of message ''channelId'') env
       [(''type'', JStr ''typing''),
        (''userId'', prop_of message ''userId''),
        (''channelId'', prop_of message ''channelId''),
        (''isTyping'', prop_of message ''isTyping'')] cl)"
  by (simp add: on_message_def)

lemma on_message_broadcast:
  assumes "get message ''type'' = Inr (JStr t)" and "t = ''new_message'' \<or> t = ''typing''"
  shows "on_message S (Returns message) env cl =
     caught cl (forEach_send S (prop_of message ''channelId'') env (broadcast_fields t message) cl)"
proof -
  from assms(2) show ?thesis
  proof
    assume "t = ''new_message''"
    with assms(1) show ?thesis
      by (simp add: on_message_new_message broadcast_fields_def)
  next
    assume "t = ''typing''"
    with assms(1) show ?thesis
      by (simp add: on_message_typing broadcast_fields_def)
  qed
qed

text \<open>
  What a broadcasting frame hands to each socket and what it logs, in terms of the
  subscribers of its channel.
\<close>

lemma received_broadcast:
  assumes "wellformed cl"
    and "get message ''type'' = Inr (JStr t)" and "t = ''new_message'' \<or> t = ''typing''"
  shows "received c (sent (on_message S (Returns message) env cl)) =
     (if c \<in> set (subscribersOf cl (prop_of message ''channelId'')) \<and> c \<noteq> S \<and>
         readyState env c = OPEN \<and> \<not> stringify_throws env (JObj (broadcast_fields t message))
      then [written (JObj (broadcast_fields t message))] else [])"
  by (simp only: on_message_broadcast [OF assms(2,3)] caught_simps
        received_forEach_send [OF assms(1)])

lemma console_error_broadcast:
  assumes "get message ''type'' = Inr (JStr t)" and "t = ''new_message'' \<or> t = ''typing''"
  shows "console_error (on_message S (Returns message) env cl) =
     (if stringify_throws env (JObj (broadcast_fields t message)) \<and>
         (\<exists>c. c \<in> set (subscribersOf cl (prop_of message ''channelId'')) \<and> c \<noteq> S \<and>
              readyState env c = OPEN)
      then [RangeError] else [])"
  by (simp add: on_message_broadcast [OF assms] caught_simps thrown_forEach_send)

lemma clients_broadcast:
  assumes "get message ''type'' = Inr (JStr t)" and "t = ''new_message'' \<or> t = ''typing''"
  shows "clients (on_message S (Returns message) env cl) = cl"
  by (simp add: on_message_broadcast [OF assms] caught_simps)

lemma received_on_message:
  assumes "wellformed cl" and "received c (sent (on_message S (Returns b) env cl)) \<noteq> []"
  shows "c \<in> set (subscribersOf cl (prop_of b ''channelId'')) \<and> c \<noteq> S \<and> readyState env c = OPEN"
  using assms
  by (auto simp: on_message_def caught_simps received_forEach_send
           split: sum.splits option.splits if_splits)




lemma leave_not_subscribed:
  assumes "wellformed cl" and "get l ''type'' = Inr (JStr ''leave_channel'')"
  shows "\<not> subscribed (clients (on_message C (Returns l) env cl)) C (prop_of l ''channelId'')"
  using assms
  by (auto simp: on_message_def subscribed_def Map_get_Map_set Set_has_Set_delete
           split: option.splits)

lemma subscribersOf_Map_set_empty:
  "wellformed cl \<Longrightarrow>
   subscribersOf (Map_set S \<lparr>userId = u, channels = []\<rparr> cl) X = removeAll S (subscribersOf cl X)"
proof (induction cl)
  case Nil
  then show ?case by (simp add: subscribersOf_def Set_has_def)
next
  case (Cons e cl)
  obtain k info where e: "e = (k, info)" by (cases e)
  from Cons.prems have fresh: "k \<notin> fst ` set cl" and wf: "wellformed cl"
    by (simp_all add: wellformed_def e)
  show ?case
  proof (cases "k = S")
    case True
    with fresh have "S \<notin> set (subscribersOf cl X)"
      by (auto simp: set_subscribersOf image_iff)
    with True show ?thesis
      by (simp add: e subscribersOf_def Set_has_def)
  next
    case False
    with Cons.IH [OF wf] show ?thesis
      by (simp add: e subscribersOf_def)
  qed
qed

section \<open>Sockets without an entry\<close>

lemma absent_not_subscriber: "Map_get cl c = None \<Longrightarrow> c \<notin> set (subscribersOf cl X)"
  by (auto simp: set_subscribersOf Map_get_None_iff image_iff)

lemma forEach_send_absent:
  assumes "Map_get cl c = None"
  shows "received c (fst (forEach_send ws X env props cl)) = []"
proof -
  from assms have "c \<notin> set (recipients ws X env cl)"
    by (simp add: set_recipients absent_not_subscriber)
  then show ?thesis
    by (simp add: forEach_send_eq received_absent split: sum.splits)
qed

lemma sent_on_message_absent:
  "Map_get cl c = None \<Longrightarrow> received c (sent (on_message ws parsed env cl)) = []"
  by (auto simp: on_message_def caught_simps forEach_send_absent
           split: parse_result.splits sum.splits option.splits)

lemma Map_get_on_message_other:
  "ws \<noteq> c \<Longrightarrow> Map_get (clients (on_message ws parsed env cl)) c = Map_get cl c"
  by (auto simp: on_message_def caught_simps Map_get_Map_set
           split: parse_result.splits sum.splits option.splits)

lemma step_absent:
  assumes "Map_get cl c = None" and "sender e \<noteq> Some c"
  shows "Map_get (clients (step (env, e) cl)) c = None \<and>
         received c (sent (step (env, e) cl)) = []"
proof (cases e)
  case (Message ws parsed)
  with assms show ?thesis
    by (simp add: Map_get_on_message_other sent_on_message_absent)
next
  case (Close ws)
  with assms show ?thesis
    by (simp add: on_close_def Map_get_Map_delete)
qed

lemma run_absent:
  "Map_get cl c = None \<Longrightarrow> silent c es \<Longrightarrow>
   Map_get (clients (run cl es)) c = None \<and> received c (sent (run cl es)) = []"
proof (induction es arbitrary: cl)
  case Nil
  then show ?case by simp
next
  case (Cons a es)
  obtain env e where a: "a = (env, e)" by (cases a)
  from Cons.prems have quiet: "sender e \<noteq> Some c" and rest: "silent c es"
    by (simp_all add: silent_def a)
  from step_absent [OF Cons.prems(1) quiet]
  have now: "Map_get (clients (step (env, e) cl)) c = None"
    and out: "received c (sent (step (env, e) cl)) = []"
    by simp_all
  from Cons.IH [OF now rest] out show ?case
    by (simp add: a Let_def received_append)
qed

text \<open>The map of the first scenario is the one its six frames build.\<close>

lemma three_in_10_reachable:
  "clients (run [] [(all_open, Message 1 (Returns (frame_auth 1))),
                    (all_open, Message 2 (Returns (frame_auth 2))),
                    (all_open, Message 3 (Returns (frame_auth 3))),
                    (all_open, Message 1 (Returns (frame_join 10))),
                    (all_open, Message 2 (Returns (frame_join 10))),
                    (all_open, Message 3 (Returns (frame_join 10)))]) = three_in_10"
proof -
  have a: "get (frame_auth u) ''type'' = Inr (JStr ''auth'')"
    and j: "get (frame_join x) ''type'' = Inr (JStr ''join_channel'')" for u x
    by (simp_all add: frame_auth_def frame_join_def)
  have pa: "prop_of (frame_auth u) ''userId'' = JNum u"
    and pj: "prop_of (frame_join x) ''channelId'' = JNum x" for u x
    by (simp_all add: frame_auth_def frame_join_def prop_of_def)
  show ?thesis
    by (simp add: Let_def on_message_auth [OF a] on_message_join_channel [OF j] pa pj
          Map_get_def Set_add_def Set_has_def three_in_10_def)
qed

section \<open>Fanout of messages and typing indicators\<close>

text \<open>
  Against claim C1 as it is written. Sockets 1, 2 and 3 are in channel 10 and OPEN.
  Socket 1 sends a \<open>new_message\<close> whose \<open>data\<close> is a number too large for a double: the
  frame handed to socket 2 carries \<open>null\<close>, not the payload. Socket 1 sends a
  \<open>new_message\<close> whose \<open>data\<close> is nested deeper than \<open>JSON.stringify\<close> can go:
  socket 2 is handed nothing and the RangeError is logged.
\<close>

theorem new_message_payload_counterexample:
  "2 \<in> set (subscribersOf three_in_10 (JNum 10)) \<and> readyState all_open 2 = OPEN \<and>
   prop_of (frame_new_message 10 JInfinity) ''data'' = JInfinity \<and>
   received 2 (sent (on_message 1 (Returns (frame_new_message 10 JInfinity)) all_open three_in_10))
     = [JObj [(''type'', JStr ''new_message''), (''message'', JNull)]] \<and>
   readyState shallow_stack 2 = OPEN \<and>
   received 2 (sent (on_message 1 (Returns (frame_new_message 10 deep)) shallow_stack three_in_10))
     = [] \<and>
   console_error (on_message 1 (Returns (frame_new_message 10 deep)) shallow_stack three_in_10)
     = [RangeError]"
  by (simp add: ex_defs eval_defs)

text \<open>
  Claim C1, amended. A \<open>new_message\<close> frame with \<open>channelId\<close> X and \<open>data\<close> payload arriving
  from socket S leaves the map as it is. When \<open>JSON.stringify\<close> does not throw on
  \<open>{type: 'new_message', message: payload}\<close>, every socket c is handed exactly one frame
  \<open>{type: 'new_message', message: p}\<close>, where p is the payload as \<open>JSON.stringify\<close> writes
  it, if c is subscribed to X, is not S and has \<open>readyState\<close> OPEN, and no frame at all
  otherwise; nothing is logged. When it throws, no socket is handed anything, and the
  RangeError is logged if some socket passed the three tests. A payload with no number
  that is not finite in it is written as it is.
\<close>

theorem new_message_fanout:
  assumes "wellformed cl"
    and "get message ''type'' = Inr (JStr ''new_message'')"
    and "prop_of message ''channelId'' = X"
    and "prop_of message ''data'' = payload"
    and "payload \<noteq> Undefined"
    and "out = on_message S (Returns message) env cl"
    and "throws = stringify_throws env (JObj [(''type'', JStr ''new_message''), (''message'', payload)])"
  shows "clients out = cl \<and>
         received c (sent out) =
           (if c \<in> set (subscribersOf cl X) \<and> c \<noteq> S \<and> readyState env c = OPEN \<and> \<not> throws
            then [JObj [(''type'', JStr ''new_message''), (''message'', written payload)]]
            else []) \<and>
         console_error out =
           (if throws \<and> (\<exists>d. d \<in> set (subscribersOf cl X) \<and> d \<noteq> S \<and> readyState env d = OPEN)
            then [RangeError] else []) \<and>
         (plain payload \<longrightarrow> written payload = payload)"
proof -
  have t: "''new_message'' = ''new_message'' \<or> ''new_message'' = ''typing''"
    by simp
  have props: "broadcast_fields ''new_message'' message =
      [(''type'', JStr ''new_message''), (''message'', payload)]"
    using assms(4) by (simp add: broadcast_fields_def)
  have frame: "written (JObj [(''type'', JStr ''new_message''), (''message'', payload)]) =
      JObj [(''type'', JStr ''new_message''), (''message'', written payload)]"
    using assms(5) by (simp add: written_Undefined_iff)
  have "clients out = cl"
    using clients_broadcast [OF assms(2) t] assms(6) by simp
  moreover have "received c (sent out) =
           (if c \<in> set (subscribersOf cl X) \<and> c \<noteq> S \<and> readyState env c = OPEN \<and> \<not> throws
            then [JObj [(''type'', JStr ''new_message''), (''message'', written payload)]]
            else [])"
    using received_broadcast [OF assms(1,2) t, where c = c and S = S and env = env]
    by (simp only: props frame assms(3,6,7))
  moreover have "console_error out =
           (if throws \<and> (\<exists>d. d \<in> set (subscribersOf cl X) \<and> d \<noteq> S \<and> readyState env d = OPEN)
            then [RangeError] else [])"
    using console_error_broadcast [OF assms(2) t, where env = env and cl = cl and S = S]
    by (simp only: props assms(3,6,7))
  ultimately show ?thesis
    by (simp add: written_plain)
qed

theorem new_message_fanout_witness:
  "wellformed three_in_10 \<and>
   get (frame_new_message 10 hi) ''type'' = Inr (JStr ''new_message'') \<and>
   prop_of (frame_new_message 10 hi) ''channelId'' = JNum 10 \<and>
   prop_of (frame_new_message 10 hi) ''data'' = hi \<and>
   hi \<noteq> Undefined \<and> plain hi \<and>
   \<not> stringify_throws all_open (JObj [(''type'', JStr ''new_message''), (''message'', hi)]) \<and>
   clients (on_message 1 (Returns (frame_new_message 10 hi)) all_open three_in_10) = three_in_10 \<and>
   received 2 (sent (on_message 1 (Returns (frame_new_message 10 hi)) all_open three_in_10))
     = [JObj [(''type'', JStr ''new_message''), (''message'', hi)]] \<and>
   received 3 (sent (on_message 1 (Returns (frame_new_message 10 hi)) all_open three_in_10))
     = [JObj [(''type'', JStr ''new_message''), (''message'', hi)]] \<and>
   received 1 (sent (on_message 1 (Returns (frame_new_message 10 hi)) all_open three_in_10)) = [] \<and>
   console_error (on_message 1 (Returns (frame_new_message 10 hi)) all_open three_in_10) = []"
  using new_message_fanout [of three_in_10 "frame_new_message 10 hi" "JNum 10" hi
      "on_message 1 (Returns (frame_new_message 10 hi)) all_open three_in_10" 1 all_open
      "stringify_throws all_open (JObj [(''type'', JStr ''new_message''), (''message'', hi)])" 2]
    new_message_fanout [of three_in_10 "frame_new_message 10 hi" "JNum 10" hi
      "on_message 1 (Returns (frame_new_message 10 hi)) all_open three_in_10" 1 all_open
      "stringify_throws all_open (JObj [(''type'', JStr ''new_message''), (''message'', hi)])" 3]
    new_message_fanout [of three_in_10 "frame_new_message 10 hi" "JNum 10" hi
      "on_message 1 (Returns (frame_new_message 10 hi)) all_open three_in_10" 1 all_open
      "stringify_throws all_open (JObj [(''type'', JStr ''new_message''), (''message'', hi)])" 1]
  by (simp add: ex_defs eval_defs)

text \<open>
  Against claim C2 as it is written. Socket 1 is in channel 10 and OPEN. Socket 2 sends
  a \<open>typing\<close> frame for channel 10 whose \<open>userId\<close> is an integer too large for a double:
  the frame handed to socket 1 has \<open>userId\<close> \<open>null\<close>, not the one of the inbound frame.
\<close>

theorem typing_fields_counterexample:
  "1 \<in> set (subscribersOf only_1_in_10 (JNum 10)) \<and> readyState all_open 1 = OPEN \<and>
   prop_of (JObj [(''type'', JStr ''typing''), (''channelId'', JNum 10), (''userId'', JInfinity),
                  (''isTyping'', JBool True)]) ''userId'' = JInfinity \<and>
   received 1 (sent (on_message 2
       (Returns (JObj [(''type'', JStr ''typing''), (''channelId'', JNum 10),
                       (''userId'', JInfinity), (''isTyping'', JBool True)]))
       all_open only_1_in_10))
     = [JObj [(''type'', JStr ''typing''), (''userId'', JNull), (''channelId'', JNum 10),
              (''isTyping'', JBool True)]]"
  by (simp add: ex_defs eval_defs)

text \<open>
  Claim C2, amended. A \<open>typing\<close> frame with \<open>channelId\<close> X, \<open>userId\<close> u and \<open>isTyping\<close> b
  arriving from socket S leaves the map as it is. When \<open>JSON.stringify\<close> does not throw
  on \<open>{type: 'typing', userId: u, channelId: X, isTyping: b}\<close>, every socket c is handed
  exactly one frame of type \<open>typing\<close> with the three fields as \<open>JSON.stringify\<close> writes
  them, if c is subscribed to X, is not S and has \<open>readyState\<close> OPEN, and no frame at all
  otherwise; nothing is logged. When it throws, no socket is handed anything, and the
  RangeError is logged if some socket passed the three tests. Fields with no number that
  is not finite in them are written as they are, so that the three fields of the
  outbound frame equal those of the inbound one.
\<close>

theorem typing_fanout:
  assumes "wellformed cl"
    and "get message ''type'' = Inr (JStr ''typing'')"
    and "prop_of message ''channelId'' = X" and "X \<noteq> Undefined"
    and "prop_of message ''userId'' = u" and "u \<noteq> Undefined"
    and "prop_of message ''isTyping'' = b" and "b \<noteq> Undefined"
    and "out = on_message S (Returns message) env cl"
    and "throws = stringify_throws env
           (JObj [(''type'', JStr ''typing''), (''userId'', u), (''channelId'', X), (''isTyping'', b)])"
  shows "clients out = cl \<and>
         received c (sent out) =
           (if c \<in> set (subscribersOf cl X) \<and> c \<noteq> S \<and> readyState env c = OPEN \<and> \<not> throws
            then [JObj [(''type'', JStr ''typing''), (''userId'', written u),
                        (''channelId'', written X), (''isTyping'', written b)]]
            else []) \<and>
         console_error out =
           (if throws \<and> (\<exists>d. d \<in> set (subscribersOf cl X) \<and> d \<noteq> S \<and> readyState env d = OPEN)
            then [RangeError] else []) \<and>
         (plain u \<and> plain X \<and> plain b \<longrightarrow> written u = u \<and> written X = X \<and> written b = b)"
proof -
  have t: "''typing'' = ''new_message'' \<or> ''typing'' = ''typing''"
    by simp
  have props: "broadcast_fields ''typing'' message =
      [(''type'', JStr ''typing''), (''userId'', u), (''channelId'', X), (''isTyping'', b)]"
    using assms(3,5,7) by (simp add: broadcast_fields_def)
  have frame: "written (JObj [(''type'', JStr ''typing''), (''userId'', u), (''channelId'', X),
                              (''isTyping'', b)]) =
      JObj [(''type'', JStr ''typing''), (''userId'', written u), (''channelId'', written X),
            (''isTyping'', written b)]"
    using assms(4,6,8) by (simp add: written_Undefined_iff)
  have "clients out = cl"
    using clients_broadcast [OF assms(2) t] assms(9) by simp
  moreover have "received c (sent out) =
           (if c \<in> set (subscribersOf cl X) \<and> c \<noteq> S \<and> readyState env c = OPEN \<and> \<not> throws
            then [JObj [(''type'', JStr ''typing''), (''userId'', written u),
                        (''channelId'', written X), (''isTyping'', written b)]]
            else [])"
    using received_broadcast [OF assms(1,2) t, where c = c and S = S and env = env]
    by (simp only: props frame assms(3,9,10))
  moreover have "console_error out =
           (if throws \<and> (\<exists>d. d \<in> set (subscribersOf cl X) \<and> d \<noteq> S \<and> readyState env d = OPEN)
            then [RangeError] else [])"
    using console_error_broadcast [OF assms(2) t, where env = env and cl = cl and S = S]
    by (simp only: props assms(3,9,10))
  ultimately show ?thesis
    by (simp add: written_plain)
qed

theorem typing_fanout_witness:
  "wellformed only_1_in_10 \<and>
   get (frame_typing 10 2 True) ''type'' = Inr (JStr ''typing'') \<and>
   prop_of (frame_typing 10 2 True) ''channelId'' = JNum 10 \<and> JNum (10::int) \<noteq> Undefined \<and>
   prop_of (frame_typing 10 2 True) ''userId'' = JNum 2 \<and> JNum (2::int) \<noteq> Undefined \<and>
   prop_of (frame_typing 10 2 True) ''isTyping'' = JBool True \<and>
   (JBool True :: int jsval) \<noteq> Undefined \<and>
   plain (JNum (2::int)) \<and> plain (JNum (10::int)) \<and> plain (JBool True :: int jsval) \<and>
   \<not> stringify_throws all_open
       (JObj [(''type'', JStr ''typing''), (''userId'', JNum 2), (''channelId'', JNum 10),
              (''isTyping'', JBool True)]) \<and>
   clients (on_message 2 (Returns (frame_typing 10 2 True)) all_open only_1_in_10) = only_1_in_10 \<and>
   received 1 (sent (on_message 2 (Returns (frame_typing 10 2 True)) all_open only_1_in_10))
     = [JObj [(''type'', JStr ''typing''), (''userId'', JNum 2), (''channelId'', JNum 10),
              (''isTyping'', JBool True)]] \<and>
   received 2 (sent (on_message 2 (Returns (frame_typing 10 2 True)) all_open only_1_in_10)) = [] \<and>
   console_error (on_message 2 (Returns (frame_typing 10 2 True)) all_open only_1_in_10) = []"
  using typing_fanout
    [of only_1_in_10 "frame_typing 10 2 True" "JNum 10" "JNum 2" "JBool True"
        "on_message 2 (Returns (frame_typing 10 2 True)) all_open only_1_in_10" 2 all_open
        "stringify_throws all_open
           (JObj [(''type'', JStr ''typing''), (''userId'', JNum 2), (''channelId'', JNum 10),
                  (''isTyping'', JBool True)])" 1]
    typing_fanout
    [of only_1_in_10 "frame_typing 10 2 True" "JNum 10" "JNum 2" "JBool True"
        "on_message 2 (Returns (frame_typing 10 2 True)) all_open only_1_in_10" 2 all_open
        "stringify_throws all_open
           (JObj [(''type'', JStr ''typing''), (''userId'', JNum 2), (''channelId'', JNum 10),
                  (''isTyping'', JBool True)])" 2]
  by (simp add: ex_defs eval_defs)

section \<open>Closing a socket\<close>

text \<open>
  Claim C3. Once the \<open>'close'\<close> handler has run for socket C, C has no entry in the map
  and is a subscriber of no channel X; and in every later run of events in which C
  delivers no frame (a closed socket emits none), no frame is handed to C and C stays
  out of every channel's subscribers. Entry and subscriptions go in the one step.
\<close>

theorem unregister_removes:
  assumes "silent C es"
  shows "Map_get (on_close C cl) C = None \<and>
         C \<notin> set (subscribersOf (on_close C cl) X) \<and>
         received C (sent (run (on_close C cl) es)) = [] \<and>
         C \<notin> set (subscribersOf (clients (run (on_close C cl) es)) X)"
proof -
  have gone: "Map_get (on_close C cl) C = None"
    by (simp add: on_close_def Map_get_Map_delete)
  from run_absent [OF gone assms] gone show ?thesis
    by (simp add: absent_not_subscriber)
qed

theorem unregister_removes_witness:
  "silent (1::nat) [(all_open, Message 2 (Returns (frame_new_message 10 hi)))] \<and>
   1 \<in> set (subscribersOf only_1_in_10 (JNum 10)) \<and>
   Map_get (on_close 1 only_1_in_10) 1 = None \<and>
   1 \<notin> set (subscribersOf (on_close 1 only_1_in_10) (JNum 10)) \<and>
   received 1 (sent (run (on_close 1 only_1_in_10)
      [(all_open, Message 2 (Returns (frame_new_message 10 hi)))])) = [] \<and>
   1 \<notin> set (subscribersOf (clients (run (on_close 1 only_1_in_10)
      [(all_open, Message 2 (Returns (frame_new_message 10 hi)))])) (JNum 10))"
  using unregister_removes
    [of 1 "[(all_open, Message 2 (Returns (frame_new_message 10 hi)))]" only_1_in_10 "JNum 10"]
  by (simp add: ex_defs eval_defs)

section \<open>Joining and leaving\<close>

text \<open>
  Claim C4. Socket C joins channel X, any events follow, and C leaves X: then C is not
  among the subscribers of X, and whatever frame b for channel X arrives next from any
  socket S, nothing is handed to C.
\<close>

theorem join_then_leave:
  assumes "wellformed cl"
    and "get j ''type'' = Inr (JStr ''join_channel'')" and "prop_of j ''channelId'' = X"
    and "get l ''type'' = Inr (JStr ''leave_channel'')" and "prop_of l ''channelId'' = X"
    and "joined = clients (on_message C (Returns j) env1 cl)"
    and "later = clients (run joined es)"
    and "left = clients (on_message C (Returns l) env2 later)"
    and "prop_of b ''channelId'' = X"
  shows "C \<notin> set (subscribersOf left X) \<and>
         received C (sent (on_message S (Returns b) env3 left)) = []"
proof -
  have wf_later: "wellformed later"
    using assms(1,6,7) by (simp add: wellformed_on_message wellformed_run)
  then have wf_left: "wellformed left"
    using assms(8) by (simp add: wellformed_on_message)
  have out: "\<not> subscribed left C X"
    using leave_not_subscribed [OF wf_later assms(4)] assms(5,8) by simp
  then have gone: "C \<notin> set (subscribersOf left X)"
    using wf_left by (simp add: subscribersOf_subscribed)
  moreover have "received C (sent (on_message S (Returns b) env3 left)) = []"
    using received_on_message [OF wf_left, of C S b env3] gone assms(9) by auto
  ultimately show ?thesis by simp
qed

theorem join_then_leave_witness:
  "wellformed only_1_in_10 \<and>
   get (frame_join 10) ''type'' = Inr (JStr ''join_channel'') \<and>
   prop_of (frame_join 10) ''channelId'' = JNum 10 \<and>
   get (frame_leave 10) ''type'' = Inr (JStr ''leave_channel'') \<and>
   prop_of (frame_leave 10) ''channelId'' = JNum 10 \<and>
   prop_of (frame_new_message 10 hi) ''channelId'' = JNum 10 \<and>
   2 \<in> set (subscribersOf (clients (on_message 2 (Returns (frame_join 10)) all_open only_1_in_10))
                (JNum 10)) \<and>
   2 \<notin> set (subscribersOf
          (clients (on_message 2 (Returns (frame_leave 10)) all_open
             (clients (run (clients (on_message 2 (Returns (frame_join 10)) all_open only_1_in_10))
                [(all_open, Message 1 (Returns (frame_typing 10 1 True)))]))))
          (JNum 10)) \<and>
   received 2 (sent (on_message 1 (Returns (frame_new_message 10 hi)) all_open
          (clients (on_message 2 (Returns (frame_leave 10)) all_open
             (clients (run (clients (on_message 2 (Returns (frame_join 10)) all_open only_1_in_10))
                [(all_open, Message 1 (Returns (frame_typing 10 1 True)))])))))) = []"
  using join_then_leave
    [of only_1_in_10 "frame_join 10" "JNum 10" "frame_leave 10"
        "clients (on_message 2 (Returns (frame_join 10)) all_open only_1_in_10)"
        2 all_open
        "clients (run (clients (on_message 2 (Returns (frame_join 10)) all_open only_1_in_10))
                [(all_open, Message 1 (Returns (frame_typing 10 1 True)))])"
        "[(all_open, Message 1 (Returns (frame_typing 10 1 True)))]"
        "clients (on_message 2 (Returns (frame_leave 10)) all_open
             (clients (run (clients (on_message 2 (Returns (frame_join 10)) all_open only_1_in_10))
                [(all_open, Message 1 (Returns (frame_typing 10 1 True)))])))"
        all_open "frame_new_message 10 hi" 1 all_open]
  by (simp add: ex_defs eval_defs)

section \<open>Identifying\<close>

text \<open>
  Against claim C5 as it is written: sockets 1 and 2 send \<open>auth\<close> and socket 1 joins
  channel 10; when socket 1 sends \<open>auth\<close> again its set of channels is empty and it is
  no longer subscribed to channel 10.
\<close>

theorem reidentify_drops_channels_counterexample:
  "clients (run [] [(all_open, Message 1 (Returns (frame_auth 1))),
                    (all_open, Message 1 (Returns (frame_join 10))),
                    (all_open, Message 2 (Returns (frame_auth 2)))]) = only_1_in_10 \<and>
   map_option channels (Map_get only_1_in_10 1) = Some [JNum 10] \<and>
   map_option channels
     (Map_get (clients (on_message 1 (Returns (frame_auth 1)) all_open only_1_in_10)) 1) = Some [] \<and>
   \<not> subscribed (clients (on_message 1 (Returns (frame_auth 1)) all_open only_1_in_10)) 1 (JNum 10)"
  by (simp add: ex_defs eval_defs)

text \<open>
  Claim C5, amended. An \<open>auth\<close> frame from socket S stores an entry for S with the
  frame's \<open>userId\<close>, whatever was stored before (the last write wins), and with an empty
  set of channels: S is then a subscriber of no channel. The entry of every other socket
  is as before, the subscribers of every channel are as before but for S, nothing is
  sent and nothing is logged.
\<close>

theorem auth_records_identity:
  assumes "get message ''type'' = Inr (JStr ''auth'')"
    and "prop_of message ''userId'' = u"
    and "out = on_message S (Returns message) env cl"
  shows "Map_get (clients out) S = Some \<lparr>userId = u, channels = []\<rparr> \<and>
         (c \<noteq> S \<longrightarrow> Map_get (clients out) c = Map_get cl c) \<and>
         (wellformed cl \<longrightarrow>
            wellformed (clients out) \<and>
            subscribersOf (clients out) X = removeAll S (subscribersOf cl X)) \<and>
         sent out = [] \<and> console_error out = []"
  using assms
  by (simp add: on_message_def Map_get_Map_set wellformed_Map_set subscribersOf_Map_set_empty)

theorem auth_records_identity_witness:
  "get (frame_auth 7) ''type'' = Inr (JStr ''auth'') \<and>
   prop_of (frame_auth 7) ''userId'' = JNum 7 \<and>
   wellformed three_in_10 \<and> (3::nat) \<noteq> 1 \<and>
   Map_get (clients (on_message 1 (Returns (frame_auth 7)) all_open three_in_10)) 1
     = Some \<lparr>userId = JNum 7, channels = []\<rparr> \<and>
   Map_get (clients (on_message 1 (Returns (frame_auth 7)) all_open three_in_10)) 3
     = Map_get three_in_10 3 \<and>
   wellformed (clients (on_message 1 (Returns (frame_auth 7)) all_open three_in_10)) \<and>
   subscribersOf (clients (on_message 1 (Returns (frame_auth 7)) all_open three_in_10)) (JNum 10)
     = [2, 3] \<and>
   sent (on_message 1 (Returns (frame_auth 7)) all_open three_in_10) = [] \<and>
   console_error (on_message 1 (Returns (frame_auth 7)) all_open three_in_10) = []"
  using auth_records_identity
    [of "frame_auth 7" "JNum 7" "on_message 1 (Returns (frame_auth 7)) all_open three_in_10"
        1 all_open three_in_10 3 "JNum 10"]
  by (simp add: ex_defs eval_defs)

section \<open>Joining before identifying\<close>

text \<open>
  Against claim C6 as it is written: on the empty map, socket 1 sends \<open>join_channel\<close> for
  channel 10 without having sent \<open>auth\<close>. The map stays empty, socket 1 is not a
  subscriber of channel 10, and a \<open>new_message\<close> for channel 10 from socket 2 hands
  socket 1 nothing.
\<close>

theorem join_before_auth_counterexample:
  "clients (on_message (1::nat) (Returns (frame_join 10)) all_open []) = [] \<and>
   1 \<notin> set (subscribersOf (clients (on_message (1::nat) (Returns (frame_join 10)) all_open []))
               (JNum 10)) \<and>
   received 1 (sent (run [] [(all_open, Message 1 (Returns (frame_join 10))),
                             (all_open, Message 2 (Returns (frame_new_message 10 hi)))])) = []"
  by (simp add: ex_defs eval_defs)

text \<open>
  Claim C6, amended. A \<open>join_channel\<close> frame for channel X sends nothing and logs
  nothing. From a socket C that has no entry (it has not sent \<open>auth\<close>) it changes
  nothing, and C is not a subscriber of X. From a socket C that has an entry, with X a
  number, string, boolean or null (as every id is), it makes C a subscriber of X; a
  \<open>new_message\<close> or \<open>typing\<close> frame b for X from another socket S, arriving next while C is
  OPEN, then hands C exactly one frame, the one \<open>JSON.stringify\<close> writes for b, unless
  \<open>JSON.stringify\<close> throws on it, when C is handed nothing.
\<close>

theorem join_needs_entry:
  assumes "get j ''type'' = Inr (JStr ''join_channel'')"
    and "prop_of j ''channelId'' = X"
    and "out = on_message C (Returns j) env cl"
  shows "sent out = [] \<and> console_error out = [] \<and>
         (Map_get cl C = None \<longrightarrow>
            clients out = cl \<and> C \<notin> set (subscribersOf (clients out) X)) \<and>
         (Map_get cl C \<noteq> None \<and> primitive X \<and> wellformed cl \<longrightarrow>
            C \<in> set (subscribersOf (clients out) X) \<and>
            (get b ''type'' = Inr (JStr t) \<and> (t = ''new_message'' \<or> t = ''typing'') \<and>
             prop_of b ''channelId'' = X \<and> S \<noteq> C \<and> readyState env' C = OPEN \<longrightarrow>
               received C (sent (on_message S (Returns b) env' (clients out))) =
                 (if stringify_throws env' (JObj (broadcast_fields t b)) then []
                  else [written (JObj (broadcast_fields t b))])))"
proof -
  have quiet: "sent out = [] \<and> console_error out = []"
    using assms by (auto simp: on_message_def split: option.splits)
  have absent: "clients out = cl \<and> C \<notin> set (subscribersOf (clients out) X)"
    if "Map_get cl C = None"
    using that assms by (simp add: on_message_def absent_not_subscriber)
  have present: "C \<in> set (subscribersOf (clients out) X) \<and>
            (get b ''type'' = Inr (JStr t) \<and> (t = ''new_message'' \<or> t = ''typing'') \<and>
             prop_of b ''channelId'' = X \<and> S \<noteq> C \<and> readyState env' C = OPEN \<longrightarrow>
               received C (sent (on_message S (Returns b) env' (clients out))) =
                 (if stringify_throws env' (JObj (broadcast_fields t b)) then []
                  else [written (JObj (broadcast_fields t b))]))"
    if "Map_get cl C \<noteq> None" and "primitive X" and wf: "wellformed cl"
  proof -
    have wf': "wellformed (clients out)"
      using wf assms(3) by (simp add: wellformed_on_message)
    have "subscribed (clients out) C X"
      using that assms
      by (auto simp: on_message_def subscribed_def Map_get_Map_set Set_has_Set_add)
    then have sub: "C \<in> set (subscribersOf (clients out) X)"
      using wf' by (simp add: subscribersOf_subscribed)
    have "received C (sent (on_message S (Returns b) env' (clients out))) =
                 (if stringify_throws env' (JObj (broadcast_fields t b)) then []
                  else [written (JObj (broadcast_fields t b))])"
      if b: "get b ''type'' = Inr (JStr t)" and t: "t = ''new_message'' \<or> t = ''typing''"
        and X: "prop_of b ''channelId'' = X" and "S \<noteq> C" and "readyState env' C = OPEN"
      using received_broadcast [OF wf' b t, where c = C and S = S and env = env'] sub that
      by simp
    with sub show ?thesis by blast
  qed
  from quiet absent present show ?thesis by blast
qed

theorem join_needs_entry_witness:
  "get (frame_join 20) ''type'' = Inr (JStr ''join_channel'') \<and>
   prop_of (frame_join 20) ''channelId'' = JNum 20 \<and>
   Map_get only_1_in_10 2 \<noteq> None \<and> primitive (JNum (20::int)) \<and> wellformed only_1_in_10 \<and>
   get (frame_new_message 20 hi) ''type'' = Inr (JStr ''new_message'') \<and>
   prop_of (frame_new_message 20 hi) ''channelId'' = JNum 20 \<and>
   (1::nat) \<noteq> 2 \<and> readyState all_open 2 = OPEN \<and>
   2 \<in> set (subscribersOf (clients (on_message 2 (Returns (frame_join 20)) all_open only_1_in_10))
               (JNum 20)) \<and>
   received 2 (sent (on_message 1 (Returns (frame_new_message 20 hi)) all_open
                 (clients (on_message 2 (Returns (frame_join 20)) all_open only_1_in_10)))) =
     [JObj [(''type'', JStr ''new_message''), (''message'', hi)]] \<and>
   received 2 (sent (on_message 1 (Returns (frame_new_message 20 deep)) shallow_stack
                 (clients (on_message 2 (Returns (frame_join 20)) all_open only_1_in_10)))) = [] \<and>
   Map_get only_1_in_10 3 = None \<and>
   clients (on_message 3 (Returns (frame_join 20)) all_open only_1_in_10) = only_1_in_10"
  using join_needs_entry
    [of "frame_join 20" "JNum 20" "on_message 2 (Returns (frame_join 20)) all_open only_1_in_10"
        2 all_open only_1_in_10 "frame_new_message 20 hi" "''new_message''" 1 all_open]
    join_needs_entry
    [of "frame_join 20" "JNum 20" "on_message 2 (Returns (frame_join 20)) all_open only_1_in_10"
        2 all_open only_1_in_10 "frame_new_message 20 deep" "''new_message''" 1 shallow_stack]
    join_needs_entry
    [of "frame_join 20" "JNum 20" "on_message 3 (Returns (frame_join 20)) all_open only_1_in_10"
        3 all_open only_1_in_10 "frame_new_message 20 hi" "''new_message''" 1 all_open]
  by (simp add: ex_defs eval_defs)

section \<open>Frames that are not recognised\<close>




section \<open>Senders without an entry\<close>




section \<open>The sender's own subscriptions\<close>




end
